theory Spec2Isabelle
  imports Complex_Main "HOL-Library.Multiset" "HOL-Library.Sublist"
begin

section \<open>The colour categories\<close>

text \<open>
  The enumeration \<^verbatim>\<open>Color\<close> of \<^verbatim>\<open>binder.py\<close>: eight members, each with a
  one-letter code and a style. \<open>list_Color\<close> is \<^verbatim>\<open>list(Color)\<close>, the members in
  definition order.
\<close>

datatype Color = MULTICOLOR | WHITE | BLUE | BLACK | RED | GREEN | ARTIFACTS | LANDS

fun code :: "Color \<Rightarrow> string" where
  "code MULTICOLOR = ''M''"
| "code WHITE = ''W''"
| "code BLUE = ''U''"
| "code BLACK = ''B''"
| "code RED = ''R''"
| "code GREEN = ''G''"
| "code ARTIFACTS = ''C''"
| "code LANDS = ''L''"

fun format :: "Color \<Rightarrow> string" where
  "format MULTICOLOR = ''dark_goldenrod''"
| "format WHITE = ''wheat1''"
| "format BLUE = ''blue''"
| "format BLACK = ''purple''"
| "format RED = ''red''"
| "format GREEN = ''green''"
| "format ARTIFACTS = ''orange4''"
| "format LANDS = ''steel_blue''"

definition list_Color :: "Color list" where
  "list_Color = [MULTICOLOR, WHITE, BLUE, BLACK, RED, GREEN, ARTIFACTS, LANDS]"

text \<open>\<^verbatim>\<open>Color.all(exclude_multi)\<close>: the codes, without that of \<open>MULTICOLOR\<close> on demand.\<close>

definition Color_all :: "bool \<Rightarrow> string list" where
  "Color_all exclude_multi =
     map code (filter (\<lambda>color. \<not> (exclude_multi \<and> color = MULTICOLOR)) list_Color)"

section \<open>Errors\<close>

text \<open>
  The exceptions the program can end with: a \<^verbatim>\<open>KeyError\<close> (a dictionary key or a
  data-frame column that does not exist; the argument names the key, and for an
  expansion that the table of expansions does not have it is \<^verbatim>\<open>expansion_id\<close>), a
  \<^verbatim>\<open>TypeError\<close> (the \<^verbatim>\<open>Config\<close> constructor called without one of its
  fields) and the \<^verbatim>\<open>HTTPError\<close> of \<^verbatim>\<open>raise_for_status\<close>.
\<close>

datatype error = KeyError string | TypeError | HTTPError

section \<open>Configuration\<close>

text \<open>
  \<open>config_dict\<close> is the dictionary read from \<^verbatim>\<open>config.yaml\<close>; a key the file
  does not have is \<open>None\<close>. \<open>get_config\<close> first replaces the entry \<^verbatim>\<open>colors\<close> (a
  \<^verbatim>\<open>KeyError\<close> when there is none) by the members of \<^verbatim>\<open>list(Color)\<close> whose code
  occurs in it, and then builds the \<^verbatim>\<open>Config\<close> (a \<^verbatim>\<open>TypeError\<close> when a field
  has no entry).
\<close>

record config_dict =
  yaml_ct_token :: "string option"
  yaml_price_cents_threshold :: "int option"
  yaml_colors :: "string list option"

record Config =
  ct_token :: string
  price_cents_threshold :: int
  colors :: "Color list"

definition get_config :: "config_dict \<Rightarrow> error + Config" where
  "get_config d =
     (case yaml_colors d of
        None \<Rightarrow> Inl (KeyError ''colors'')
      | Some cs \<Rightarrow>
          (let colors' = filter (\<lambda>color. code color \<in> set cs) list_Color in
           case (yaml_ct_token d, yaml_price_cents_threshold d) of
             (Some t, Some p) \<Rightarrow>
               Inr \<lparr>ct_token = t, price_cents_threshold = p, colors = colors'\<rparr>
           | _ \<Rightarrow> Inl TypeError))"

section \<open>The inventory and the data frame\<close>

text \<open>
  A record of the inventory export, with the keys the program reads. The keys
  \<^verbatim>\<open>price_cents\<close>, \<^verbatim>\<open>properties_hash.mtg_foil\<close> and
  \<^verbatim>\<open>properties_hash.mtg_card_colors\<close> may be absent from a record (\<open>None\<close>);
  \<^verbatim>\<open>json_normalize\<close> then leaves the cell empty (NaN). The other keys are in
  every record. Prices are the integers of the JSON text, below \<open>2 ^ 53\<close> so that
  the float column that holds them next to an empty cell holds them exactly; strings are
  ASCII.
\<close>

record raw =
  quantity :: int
  name_en :: string
  blueprint_id :: int
  price_cents :: "int option"
  mtg_language :: string
  mtg_foil :: "bool option"
  mtg_card_colors :: "string option"

text \<open>
  A row of \<^verbatim>\<open>data_pd\<close>: the columns of the record (two of them renamed, which
  changes no value), the column \<^verbatim>\<open>index\<close> that \<^verbatim>\<open>reset_index\<close> adds (the
  position of the record in the export) and the column \<^verbatim>\<open>foil\<close>. The column
  \<^verbatim>\<open>price\<close>, a formatted text of the price, is display only and left out.
\<close>

record row = raw +
  index :: nat
  foil :: "string option"

type_synonym frame = "(nat \<times> raw) list"

type_synonym sorter = "(int \<times> nat \<times> raw) list \<Rightarrow> (int \<times> nat \<times> raw) list"

text \<open>
  A column exists in the frame when at least one record has the key; reading,
  sorting by or dropping on a column that does not exist raises \<^verbatim>\<open>KeyError\<close>.
\<close>

definition has_column :: "(raw \<Rightarrow> 'a option) \<Rightarrow> raw list \<Rightarrow> bool" where
  "has_column f data = (\<exists>r \<in> set data. f r \<noteq> None)"

definition json_normalize :: "raw list \<Rightarrow> frame" where
  "json_normalize data = enumerate 0 data"

text \<open>
  \<^verbatim>\<open>sort_values("price_cents", ascending=False)\<close>: the rows that have a price,
  ordered by the library's sorting algorithm \<open>srt\<close> on that key, then the rows without
  one (\<^verbatim>\<open>na_position\<close> is \<^verbatim>\<open>last\<close>), in their order. The call names no
  \<^verbatim>\<open>kind\<close>, so the algorithm is the library's default; it is a parameter here.
\<close>

definition sort_values :: "sorter \<Rightarrow> frame \<Rightarrow> frame" where
  "sort_values srt df =
     map snd (srt (map (\<lambda>x. (the (price_cents (snd x)), x))
                    (filter (\<lambda>x. price_cents (snd x) \<noteq> None) df)))
     @ filter (\<lambda>x. price_cents (snd x) = None) df"

definition dropna :: "frame \<Rightarrow> frame" where
  "dropna df = filter (\<lambda>x. mtg_card_colors (snd x) \<noteq> None) df"

text \<open>
  \<^verbatim>\<open>replace([True, False], [":heavy_check_mark:", ""])\<close>: an empty cell matches
  neither value and stays empty.
\<close>

definition replace_foil :: "bool option \<Rightarrow> string option" where
  "replace_foil v =
     (case v of
        Some True \<Rightarrow> Some '':heavy_check_mark:''
      | Some False \<Rightarrow> Some []
      | None \<Rightarrow> None)"

definition upper_char :: "char \<Rightarrow> char" where
  "upper_char c =
     (case map_of (zip ''abcdefghijklmnopqrstuvwxyz'' ''ABCDEFGHIJKLMNOPQRSTUVWXYZ'') c of
        Some u \<Rightarrow> u
      | None \<Rightarrow> c)"

definition str_upper :: "string \<Rightarrow> string" where
  "str_upper s = map upper_char s"

definition assign_columns :: "nat \<times> raw \<Rightarrow> row" where
  "assign_columns x =
     \<lparr>quantity = quantity (snd x), name_en = name_en (snd x),
      blueprint_id = blueprint_id (snd x), price_cents = price_cents (snd x),
      mtg_language = mtg_language (snd x), mtg_foil = mtg_foil (snd x),
      mtg_card_colors = map_option str_upper (mtg_card_colors (snd x)),
      index = fst x, foil = replace_foil (mtg_foil (snd x))\<rparr>"

text \<open>
  Lines 130 to 152 of \<^verbatim>\<open>main\<close>: the frame \<^verbatim>\<open>data_pd\<close> made from the export.
\<close>

definition data_pd :: "sorter \<Rightarrow> raw list \<Rightarrow> error + row list" where
  "data_pd srt data =
     (if \<not> has_column price_cents data then Inl (KeyError ''price_cents'')
      else if \<not> has_column mtg_card_colors data
        then Inl (KeyError ''properties_hash.mtg_card_colors'')
      else if \<not> has_column mtg_foil data then Inl (KeyError ''mtg_foil'')
      else Inr (map assign_columns (dropna (sort_values srt (json_normalize data)))))"

text \<open>
  What the program relies on from the sorting algorithm: the result is a rearrangement
  of the rows, in descending order of the key. An algorithm is stable when rows with
  equal keys keep their order.
\<close>

definition sorts_descending :: "sorter \<Rightarrow> bool" where
  "sorts_descending srt =
     (\<forall>xs. mset (srt xs) = mset xs \<and> sorted_wrt (\<lambda>a b. fst b \<le> fst a) (srt xs))"

definition stable :: "sorter \<Rightarrow> bool" where
  "stable srt = (\<forall>xs k. filter (\<lambda>a. fst a = k) (srt xs) = filter (\<lambda>a. fst a = k) xs)"

text \<open>Two sorting algorithms: one keeps rows with equal keys in order, one reverses them.\<close>

definition stable_descending :: sorter where
  "stable_descending xs = sort_key (\<lambda>a. - fst a) xs"

definition reversing_descending :: sorter where
  "reversing_descending xs = rev (sort_key fst xs)"

text \<open>
  The order that \<^verbatim>\<open>sort_values\<close> establishes on the price column: descending,
  with the empty cells last.
\<close>

definition nan_last :: "int option \<Rightarrow> int option \<Rightarrow> bool" where
  "nan_last p q =
     (case p of
        None \<Rightarrow> q = None
      | Some a \<Rightarrow> (case q of None \<Rightarrow> True | Some b \<Rightarrow> b \<le> a))"

section \<open>Buckets\<close>

text \<open>
  The comparison \<^verbatim>\<open>>=\<close> on two cells of the price column; it is false when one
  of them is empty (NaN). The queries compare a cell with \<^verbatim>\<open>price_thresh\<close>.
\<close>

definition cell_ge :: "int option \<Rightarrow> int option \<Rightarrow> bool" where
  "cell_ge p q =
     (case p of
        None \<Rightarrow> False
      | Some a \<Rightarrow> (case q of None \<Rightarrow> False | Some b \<Rightarrow> b \<le> a))"

definition query_color :: "Color \<Rightarrow> int \<Rightarrow> row list \<Rightarrow> row list" where
  "query_color color price_thresh df =
     (if color \<noteq> MULTICOLOR then
        filter (\<lambda>r. mtg_card_colors r = Some (code color)
                   \<and> cell_ge (price_cents r) (Some price_thresh)) df
      else
        let color_codes = Color_all True in
        filter (\<lambda>r. (case mtg_card_colors r of
                        None \<Rightarrow> True
                      | Some c \<Rightarrow> c \<notin> set color_codes)
                   \<and> cell_ge (price_cents r) (Some price_thresh)) df)"

text \<open>
  \<^verbatim>\<open>query['price_cents'].sum()\<close> skips empty cells. The sum is an integer, or a
  float with an integer value; it is exact below \<open>2 ^ 53\<close>.
\<close>

definition sum_price_cents :: "row list \<Rightarrow> int" where
  "sum_price_cents query =
     sum_list (map (\<lambda>r. case price_cents r of None \<Rightarrow> 0 | Some c \<Rightarrow> c) query)"

section \<open>Expansions\<close>

record expansion =
  exp_id :: int
  exp_game_id :: int
  exp_name :: string
  exp_code :: string

definition expansions_dict :: "expansion list \<Rightarrow> int \<Rightarrow> (int \<rightharpoonup> string \<times> string)" where
  "expansions_dict expansions game_id =
     foldl (\<lambda>m exp. if exp_game_id exp = game_id
                     then m(exp_id exp \<mapsto> (exp_name exp, exp_code exp)) else m)
       Map.empty expansions"

text \<open>
  \<open>get_expansion\<close> sends one request for the blueprint: \<open>api\<close> is the service, which
  answers with the blueprint's expansion id or with an error status (\<open>None\<close>). The
  requests sent so far are the state.
\<close>

definition get_expansion ::
  "(int \<Rightarrow> int option) \<Rightarrow> (int \<rightharpoonup> string \<times> string) \<Rightarrow> int \<Rightarrow> int list
     \<Rightarrow> (error + string) \<times> int list" where
  "get_expansion api expansions bid sent =
     (case api bid of
        None \<Rightarrow> (Inl HTTPError, sent @ [bid])
      | Some expansion_id \<Rightarrow>
          (case expansions expansion_id of
             None \<Rightarrow> (Inl (KeyError ''expansion_id''), sent @ [bid])
           | Some e \<Rightarrow> (Inr (fst e), sent @ [bid])))"

text \<open>\<^verbatim>\<open>query["blueprint_id"].apply(get_expansion_f)\<close>: one call for every row, in order.\<close>

fun apply_get_expansion ::
  "(int \<Rightarrow> int option) \<Rightarrow> (int \<rightharpoonup> string \<times> string) \<Rightarrow> row list \<Rightarrow> int list
     \<Rightarrow> (error + string list) \<times> int list" where
  "apply_get_expansion api expansions [] sent = (Inr [], sent)"
| "apply_get_expansion api expansions (r # rs) sent =
     (case get_expansion api expansions (blueprint_id r) sent of
        (Inl e, sent') \<Rightarrow> (Inl e, sent')
      | (Inr name, sent') \<Rightarrow>
          (case apply_get_expansion api expansions rs sent' of
             (Inl e, sent'') \<Rightarrow> (Inl e, sent'')
           | (Inr names, sent'') \<Rightarrow> (Inr (name # names), sent'')))"

section \<open>Floating point\<close>

text \<open>
  The grand total of the values is a Python \<^verbatim>\<open>float\<close>. A \<open>double\<close> \<open>(m, e)\<close> stands
  for the number \<open>m * 2 ^ e\<close>, where \<open>m\<close> has exactly 53 bits, or is \<open>(0, 0)\<close>. Results
  are rounded to the nearest such number, ties to the even mantissa, as IEEE 754
  binary64 does. The exponent is not bounded: overflow and subnormal numbers are outside
  this model, and the sums of cents that are divided are below \<open>2 ^ 53\<close>.
\<close>

type_synonym double = "int \<times> int"

function bit_length :: "int \<Rightarrow> int" where
  "bit_length n = (if n \<le> 0 then 0 else 1 + bit_length (n div 2))"
  by pat_completeness auto
termination
  by (relation "measure nat") auto

definition round_half_even :: "int \<Rightarrow> int \<Rightarrow> int" where
  "round_half_even n d =
     (let q = n div d; r = n mod d in
      if 2 * r < d then q
      else if d < 2 * r then q + 1
      else if even q then q else q + 1)"

definition shift :: "int \<Rightarrow> int \<Rightarrow> int" where
  "shift x k = (if 0 \<le> k then x * 2 ^ nat k else x)"

text \<open>\<open>fl n d\<close> is the double nearest to \<open>n / d\<close>, for \<open>0 < d\<close>.\<close>

definition fl :: "int \<Rightarrow> int \<Rightarrow> double" where
  "fl n d =
     (if n = 0 then (0, 0)
      else
        let a = \<bar>n\<bar>;
            s0 = 53 + bit_length d - bit_length a;
            s = (if shift d (- s0) * 2 ^ 53 \<le> shift a s0 then s0 - 1 else s0);
            m = round_half_even (shift a s) (shift d (- s))
        in if m = 2 ^ 53 then (sgn n * 2 ^ 52, 1 - s) else (sgn n * m, - s))"

text \<open>\<^verbatim>\<open>x / 100\<close> on an integer \<open>x\<close>, and \<^verbatim>\<open>+\<close> on two floats.\<close>

definition true_divide :: "int \<Rightarrow> int \<Rightarrow> double" where
  "true_divide x y = fl x y"

definition float_add :: "double \<Rightarrow> double \<Rightarrow> double" where
  "float_add x y =
     (let e = min (snd x) (snd y);
          z = fl (shift (fst x) (snd x - e) + shift (fst y) (snd y - e)) 1
      in if fst z = 0 then (0, 0) else (fst z, snd z + e))"

definition double_val :: "double \<Rightarrow> rat" where
  "double_val x =
     (if 0 \<le> snd x then of_int (fst x * 2 ^ nat (snd x))
      else of_int (fst x) / of_int (2 ^ nat (- snd x)))"

section \<open>The run\<close>

text \<open>
  What \<^verbatim>\<open>main\<close> reads from outside: the configuration file and the answers of the
  service to the three kinds of request (\<open>None\<close> is an error status).
\<close>

record world =
  config_yaml :: config_dict
  expansions_api :: "expansion list option"
  collection_api :: "raw list option"
  blueprint_api :: "int \<Rightarrow> int option"

text \<open>
  A printed table: the colour of its title, its rows (a row of the query with the
  expansion name) and the two numbers of its caption, \<^verbatim>\<open>len(query)\<close> and
  \<^verbatim>\<open>query['price_cents'].sum()\<close>, before the latter is divided by 100 for display.
\<close>

record table =
  title :: Color
  rows :: "(row \<times> string) list"
  caption_items :: nat
  caption_cents :: int

text \<open>
  The state of \<^verbatim>\<open>main\<close>: the tables printed so far, the blueprint requests sent
  so far, and the two running totals.
\<close>

record state =
  console :: "table list"
  requests :: "int list"
  total_items :: nat
  total_value :: double

definition initial :: state where
  "initial = \<lparr>console = [], requests = [], total_items = 0, total_value = (0, 0)\<rparr>"

text \<open>
  The loop over the configured colours (lines 156 to 189). An exception ends it: the
  result is the error, if any, and the state reached.
\<close>

fun for_color ::
  "(int \<Rightarrow> int option) \<Rightarrow> (int \<rightharpoonup> string \<times> string) \<Rightarrow> int \<Rightarrow> row list
     \<Rightarrow> Color list \<Rightarrow> state \<Rightarrow> error option \<times> state" where
  "for_color api expansions price_thresh df [] s = (None, s)"
| "for_color api expansions price_thresh df (color # rest) s =
     (let query = query_color color price_thresh df in
      case apply_get_expansion api expansions query (requests s) of
        (Inl e, sent) \<Rightarrow> (Some e, s\<lparr>requests := sent\<rparr>)
      | (Inr names, sent) \<Rightarrow>
          for_color api expansions price_thresh df rest
            \<lparr>console = console s @
               [\<lparr>title = color, rows = zip query names,
                 caption_items = length query,
                 caption_cents = sum_price_cents query\<rparr>],
             requests = sent,
             total_items = total_items s + length query,
             total_value = float_add (total_value s)
                             (true_divide (sum_price_cents query) 100)\<rparr>)"

definition main :: "sorter \<Rightarrow> world \<Rightarrow> error option \<times> state" where
  "main srt w =
     (case get_config (config_yaml w) of
        Inl e \<Rightarrow> (Some e, initial)
      | Inr config \<Rightarrow>
          (case expansions_api w of
             None \<Rightarrow> (Some HTTPError, initial)
           | Some expansions \<Rightarrow>
               (let exp_dict = expansions_dict expansions 1 in
                case collection_api w of
                  None \<Rightarrow> (Some HTTPError, initial)
                | Some data \<Rightarrow>
                    (case data_pd srt data of
                       Inl e \<Rightarrow> (Some e, initial)
                     | Inr df \<Rightarrow>
                         for_color (blueprint_api w) exp_dict
                           (price_cents_threshold config) df (colors config) initial))))"

section \<open>Scenarios\<close>

text \<open>
  Concrete inputs: a record of the export, a service that knows one expansion and
  answers every blueprint request with it, and an inventory in which two records share
  a blueprint, one has no price, one has no colour and one has no foil flag.
\<close>

definition item :: "int \<Rightarrow> int option \<Rightarrow> bool option \<Rightarrow> string option \<Rightarrow> raw" where
  "item b p f c =
     \<lparr>quantity = 1, name_en = ''Card'', blueprint_id = b, price_cents = p,
      mtg_language = ''en'', mtg_foil = f, mtg_card_colors = c\<rparr>"

definition service :: "string list \<Rightarrow> int \<Rightarrow> raw list \<Rightarrow> world" where
  "service cs t data =
     \<lparr>config_yaml = \<lparr>yaml_ct_token = Some ''token'', yaml_price_cents_threshold = Some t,
                      yaml_colors = Some cs\<rparr>,
      expansions_api = Some [\<lparr>exp_id = 7, exp_game_id = 1, exp_name = ''Alpha'',
                              exp_code = ''LEA''\<rparr>],
      collection_api = Some data,
      blueprint_api = (\<lambda>b. Some 7)\<rparr>"

definition inventory :: "raw list" where
  "inventory =
     [item 42 (Some 500) (Some False) (Some ''w''),
      item 43 (Some 1000) (Some True) (Some ''wu''),
      item 42 (Some 500) None (Some ''W''),
      item 44 None (Some True) (Some ''W''),
      item 45 (Some 200) (Some False) (Some ''u''),
      item 46 (Some 900) (Some False) None]"

definition small_change :: "raw list" where
  "small_change =
     [item 1 (Some 10) (Some False) (Some ''W''),
      item 2 (Some 20) (Some False) (Some ''U'')]"

section \<open>Properties of the configuration\<close>

lemma set_list_Color: "set list_Color = UNIV"
proof -
  have "c \<in> set list_Color" for c
    by (cases c) (simp_all add: list_Color_def)
  then show ?thesis by blast
qed

lemma distinct_list_Color: "distinct list_Color"
  by (simp add: list_Color_def)

lemma code_inj: "code c = code c' \<Longrightarrow> c = c'"
  by (cases c; cases c'; simp)

text \<open>
  Claim C10. Loading a configuration ignores every entry of \<^verbatim>\<open>colors\<close> that is not
  one of the eight codes: whatever strings the list holds, \<open>get_config\<close> returns a
  configuration (no error), and its colours are exactly the members of the enumeration
  whose code occurs in the list.
\<close>

theorem get_config_ignores_unknown_codes:
  assumes "yaml_colors d = Some cs"
    and "yaml_ct_token d = Some t"
    and "yaml_price_cents_threshold d = Some p"
  shows "\<exists>cfg. get_config d = Inr cfg
           \<and> set (colors cfg) = {color. code color \<in> set cs}
           \<and> distinct (colors cfg)
           \<and> ct_token cfg = t \<and> price_cents_threshold cfg = p"
  using assms by (auto simp: get_config_def set_list_Color distinct_list_Color)

theorem get_config_ignores_unknown_codes_witness:
  "\<exists>cfg. get_config \<lparr>yaml_ct_token = Some ''tok'', yaml_price_cents_threshold = Some 300,
             yaml_colors = Some [''X'', ''W'', ''purple'', ''U'']\<rparr> = Inr cfg
         \<and> set (colors cfg) = {color. code color \<in> set [''X'', ''W'', ''purple'', ''U'']}
         \<and> distinct (colors cfg)
         \<and> ct_token cfg = ''tok'' \<and> price_cents_threshold cfg = 300"
  using get_config_ignores_unknown_codes
    [of "\<lparr>yaml_ct_token = Some ''tok'', yaml_price_cents_threshold = Some 300,
          yaml_colors = Some [''X'', ''W'', ''purple'', ''U'']\<rparr>"
        "[''X'', ''W'', ''purple'', ''U'']" "''tok''" 300]
  by simp

section \<open>Properties of the normalized frame\<close>

subsection \<open>Sorting algorithms\<close>

lemma sorts_descending_stable_descending: "sorts_descending stable_descending"
proof -
  have "sorted_wrt (\<lambda>a b. fst b \<le> fst a) (sort_key (\<lambda>a. - fst a) xs)" for xs :: "(int \<times> nat \<times> raw) list"
  proof -
    have "sorted (map (\<lambda>a. - fst a) (sort_key (\<lambda>a. - fst a) xs))"
      by (rule sorted_sort_key)
    then show ?thesis
      by (simp add: sorted_map)
  qed
  then show ?thesis
    by (simp add: sorts_descending_def stable_descending_def)
qed

lemma stable_stable_descending: "stable stable_descending"
proof -
  have "filter (\<lambda>a. fst a = k) (sort_key (\<lambda>a. - fst a) xs) = filter (\<lambda>a. fst a = k) xs"
    for k and xs :: "(int \<times> nat \<times> raw) list"
    using sort_key_stable [of "\<lambda>a. - fst a" "- k" xs] by simp
  then show ?thesis
    by (simp add: stable_def stable_descending_def)
qed

lemma sorts_descending_reversing_descending: "sorts_descending reversing_descending"
proof -
  have "sorted_wrt (\<lambda>a b. fst b \<le> fst a) (rev (sort_key fst xs))" for xs :: "(int \<times> nat \<times> raw) list"
  proof -
    have "sorted (map fst (sort_key fst xs))"
      by (rule sorted_sort_key)
    then have "sorted_wrt (\<lambda>a b. fst a \<le> fst b) (sort_key fst xs)"
      by (simp add: sorted_map)
    then show ?thesis
      by (simp add: sorted_wrt_rev)
  qed
  then show ?thesis
    by (simp add: sorts_descending_def reversing_descending_def)
qed

subsection \<open>Sorting\<close>

lemma mset_sort_values:
  assumes "sorts_descending srt"
  shows "mset (sort_values srt df) = mset df"
proof -
  let ?P = "\<lambda>x::nat \<times> raw. price_cents (snd x) \<noteq> None"
  let ?g = "\<lambda>x::nat \<times> raw. (the (price_cents (snd x)), x)"
  have "mset (map snd (srt (map ?g (filter ?P df)))) = image_mset snd (mset (srt (map ?g (filter ?P df))))"
    by simp
  also have "\<dots> = image_mset snd (mset (map ?g (filter ?P df)))"
    using assms by (simp add: sorts_descending_def)
  also have "\<dots> = mset (filter ?P df)"
    by (simp add: image_mset.compositionality comp_def)
  finally have "mset (sort_values srt df) = mset (filter ?P df) + mset (filter (\<lambda>x. \<not> ?P x) df)"
    by (simp add: sort_values_def)
  then show ?thesis
    by simp
qed

lemma set_sort_values:
  assumes "sorts_descending srt"
  shows "set (sort_values srt df) = set df"
  using mset_sort_values [OF assms, of df] by (metis set_mset_mset)

lemma set_srt:
  assumes "sorts_descending srt"
  shows "set (srt xs) = set xs"
proof -
  have "mset (srt xs) = mset xs"
    using assms by (simp add: sorts_descending_def)
  then show ?thesis
    by (rule mset_eq_setD)
qed

lemma sorted_wrt_srt:
  assumes "sorts_descending srt"
  shows "sorted_wrt (\<lambda>a b. fst b \<le> fst a) (srt xs)"
  using assms by (simp add: sorts_descending_def)

lemma sorted_priced:
  assumes "sorts_descending srt"
  shows "sorted_wrt (\<lambda>x y. nan_last (price_cents (snd x)) (price_cents (snd y)))
           (map snd (srt (map (\<lambda>x. (the (price_cents (snd x)), x))
                    (filter (\<lambda>x. price_cents (snd x) \<noteq> None) df))))"
proof -
  let ?zs = "map (\<lambda>x::nat \<times> raw. (the (price_cents (snd x)), x))
                    (filter (\<lambda>x. price_cents (snd x) \<noteq> None) df)"
  have "sorted_wrt (\<lambda>a b. nan_last (price_cents (snd (snd a))) (price_cents (snd (snd b)))) (srt ?zs)"
  proof (rule sorted_wrt_mono_rel [OF _ sorted_wrt_srt [OF assms]])
    fix a b
    assume "a \<in> set (srt ?zs)" "b \<in> set (srt ?zs)" and le: "fst b \<le> fst a"
    then have "a \<in> set ?zs" "b \<in> set ?zs"
      by (simp_all only: set_srt [OF assms])
    then obtain p q where "price_cents (snd (snd a)) = Some p" "fst a = p"
       "price_cents (snd (snd b)) = Some q" "fst b = q"
      by auto
    with le show "nan_last (price_cents (snd (snd a))) (price_cents (snd (snd b)))"
      by (simp add: nan_last_def)
  qed
  then show ?thesis
    by (simp only: sorted_wrt_map)
qed

lemma sorted_sort_values:
  assumes "sorts_descending srt"
  shows "sorted_wrt (\<lambda>x y. nan_last (price_cents (snd x)) (price_cents (snd y))) (sort_values srt df)"
proof -
  let ?R = "\<lambda>x y::nat \<times> raw. nan_last (price_cents (snd x)) (price_cents (snd y))"
  let ?ns = "filter (\<lambda>x::nat \<times> raw. price_cents (snd x) = None) df"
  have 2: "sorted_wrt ?R ?ns"
  proof (rule sorted_wrt_mono_rel [where P = "\<lambda>x y. True"])
    show "sorted_wrt (\<lambda>x y. True) ?ns"
      by (induction df) simp_all
  next
    fix x y assume "x \<in> set ?ns" "y \<in> set ?ns"
    then show "?R x y" by (simp add: nan_last_def)
  qed
  have 3: "?R x y" if "y \<in> set ?ns" for x y
    using that by (simp add: nan_last_def split: option.split)
  show ?thesis
    unfolding sort_values_def sorted_wrt_append using sorted_priced [OF assms, of df] 2 3 by blast
qed


subsection \<open>The frame\<close>

lemma data_pd_Inr:
  assumes "data_pd srt data = Inr df"
  shows "df = map assign_columns (dropna (sort_values srt (json_normalize data)))"
    and "has_column price_cents data" and "has_column mtg_card_colors data"
    and "has_column mtg_foil data"
  using assms by (auto simp: data_pd_def split: if_splits)

lemma data_pd_Inl:
  assumes "data_pd srt data = Inl e"
  shows "\<exists>k. e = KeyError k"
  using assms by (auto simp: data_pd_def split: if_splits)

lemma assign_columns_simps [simp]:
  "price_cents (assign_columns x) = price_cents (snd x)"
  "mtg_foil (assign_columns x) = mtg_foil (snd x)"
  "blueprint_id (assign_columns x) = blueprint_id (snd x)"
  "mtg_card_colors (assign_columns x) = map_option str_upper (mtg_card_colors (snd x))"
  "index (assign_columns x) = fst x"
  "foil (assign_columns x) = replace_foil (mtg_foil (snd x))"
  by (simp_all add: assign_columns_def)

lemma sorted_data_pd:
  assumes "sorts_descending srt" and "data_pd srt data = Inr df"
  shows "sorted_wrt (\<lambda>r r'. nan_last (price_cents r) (price_cents r')) df"
proof -
  have "sorted_wrt (\<lambda>x y. nan_last (price_cents (snd x)) (price_cents (snd y)))
          (dropna (sort_values srt (json_normalize data)))"
    unfolding dropna_def by (intro sorted_wrt_filter sorted_sort_values assms)
  then show ?thesis
    by (simp add: data_pd_Inr(1) [OF assms(2)] sorted_wrt_map)
qed

lemma colors_data_pd:
  assumes "data_pd srt data = Inr df" and "r \<in> set df"
  shows "mtg_card_colors r \<noteq> None"
  using assms(2) unfolding data_pd_Inr(1) [OF assms(1)] dropna_def by auto

lemma mset_data_pd:
  assumes "sorts_descending srt" and "data_pd srt data = Inr df"
  shows "mset df = image_mset assign_columns
           (mset (filter (\<lambda>x. mtg_card_colors (snd x) \<noteq> None) (enumerate 0 data)))"
  unfolding data_pd_Inr(1) [OF assms(2)] dropna_def json_normalize_def
  by (simp add: mset_sort_values [OF assms(1)])

lemma in_enumerate: "x \<in> set (enumerate 0 data) \<longleftrightarrow> fst x < length data \<and> snd x = data ! fst x"
  by (cases x) (auto simp: in_set_enumerate_eq)

lemma origin_data_pd:
  assumes "sorts_descending srt" and "data_pd srt data = Inr df" and "r \<in> set df"
  shows "index r < length data \<and> r = assign_columns (index r, data ! index r)"
proof -
  have "r \<in># mset df" using assms(3) by simp
  then obtain x where x: "x \<in> set (enumerate 0 data)" "r = assign_columns x"
    unfolding mset_data_pd [OF assms(1,2)] by auto
  from x(1) have "fst x < length data \<and> snd x = data ! fst x"
    by (simp only: in_enumerate)
  then have "fst x < length data" "x = (fst x, data ! fst x)"
    by (simp_all add: prod_eq_iff)
  with x(2) show ?thesis
    by (metis assign_columns_simps(5))
qed

lemma filter_price_sort_values:
  assumes "sorts_descending srt" and "stable srt"
  shows "filter (\<lambda>x. price_cents (snd x) = Some k) (sort_values srt df)
           = filter (\<lambda>x. price_cents (snd x) = Some k) df"
proof -
  let ?zs = "map (\<lambda>x::nat \<times> raw. (the (price_cents (snd x)), x))
                    (filter (\<lambda>x. price_cents (snd x) \<noteq> None) df)"
  have "filter (\<lambda>a. price_cents (snd (snd a)) = Some k) (srt ?zs) = filter (\<lambda>a. fst a = k) (srt ?zs)"
    by (rule filter_cong) (auto simp: set_srt [OF assms(1)])
  also have "\<dots> = filter (\<lambda>a. fst a = k) ?zs"
    using assms(2) by (simp add: stable_def)
  finally have "filter (\<lambda>x. price_cents (snd x) = Some k) (map snd (srt ?zs))
                 = map snd (filter (\<lambda>a. fst a = k) ?zs)"
    by (simp add: filter_map comp_def)
  also have "\<dots> = filter (\<lambda>x. price_cents (snd x) = Some k) df"
    by (induction df) auto
  finally have 1: "filter (\<lambda>x. price_cents (snd x) = Some k) (map snd (srt ?zs))
                 = filter (\<lambda>x. price_cents (snd x) = Some k) df" .
  have 2: "filter (\<lambda>x. price_cents (snd x) = Some k) (filter (\<lambda>x. price_cents (snd x) = None) df) = []"
    by (induction df) auto
  show ?thesis
    unfolding sort_values_def filter_append 1 2 by simp
qed

lemma stable_data_pd:
  assumes "sorts_descending srt" and "stable srt" and "data_pd srt data = Inr df"
  shows "sorted (map index (filter (\<lambda>r. price_cents r = Some k) df))"
proof -
  let ?fr = "enumerate 0 data"
  have "filter (\<lambda>r. price_cents r = Some k) df
          = map assign_columns (filter (\<lambda>x. mtg_card_colors (snd x) \<noteq> None)
              (filter (\<lambda>x. price_cents (snd x) = Some k) (sort_values srt ?fr)))"
    unfolding data_pd_Inr(1) [OF assms(3)] dropna_def json_normalize_def
    by (simp add: filter_map comp_def conj_commute)
  then have "map index (filter (\<lambda>r. price_cents r = Some k) df)
          = map fst (filter (\<lambda>x. mtg_card_colors (snd x) \<noteq> None)
              (filter (\<lambda>x. price_cents (snd x) = Some k) ?fr))"
    by (simp add: filter_price_sort_values [OF assms(1,2)] comp_def)
  moreover have "sorted (map fst (filter P ?fr))" for P
  proof -
    have "sorted (map fst ?fr)"
      by simp
    then have "sorted_wrt (\<lambda>x y. fst x \<le> fst y) ?fr"
      by (simp only: sorted_map)
    then have "sorted_wrt (\<lambda>x y. fst x \<le> fst y) (filter P ?fr)"
      by (rule sorted_wrt_filter)
    then show ?thesis
      by (simp only: sorted_map)
  qed
  ultimately show ?thesis
    by (simp only: filter_filter)
qed

section \<open>Properties of the run\<close>

lemma apply_get_expansion_Inr:
  assumes "apply_get_expansion api exps q sent = (Inr names, sent')"
  shows "length names = length q \<and> sent' = sent @ map blueprint_id q"
  using assms
proof (induction q arbitrary: sent names sent')
  case Nil
  then show ?case by simp
next
  case (Cons r rs)
  from Cons.prems show ?case
    by (auto simp: get_expansion_def split: option.splits prod.splits sum.splits dest!: Cons.IH)
qed

lemma for_color_success:
  assumes "for_color api exps t df cs s = (None, s')"
  shows "map (\<lambda>tb. (title tb, map fst (rows tb), caption_items tb, caption_cents tb)) (console s')
           = map (\<lambda>tb. (title tb, map fst (rows tb), caption_items tb, caption_cents tb)) (console s)
             @ map (\<lambda>c. (c, query_color c t df, length (query_color c t df),
                          sum_price_cents (query_color c t df))) cs"
    and "requests s' = requests s @ concat (map (\<lambda>c. map blueprint_id (query_color c t df)) cs)"
    and "total_items s' = total_items s + sum_list (map (\<lambda>c. length (query_color c t df)) cs)"
    and "total_value s' = foldl (\<lambda>v c. float_add v (true_divide (sum_price_cents (query_color c t df)) 100))
                            (total_value s) cs"
  using assms
proof (induction cs arbitrary: s)
  case Nil
  { case 1 then show ?case by simp }
  { case 2 then show ?case by simp }
  { case 3 then show ?case by simp }
  { case 4 then show ?case by simp }
next
  case (Cons c cs)
  { case 1 then show ?case 
      by (auto simp: Let_def split: prod.splits sum.splits dest!: Cons.IH(1) apply_get_expansion_Inr) }
  { case 2 then show ?case 
      by (auto simp: Let_def split: prod.splits sum.splits dest!: Cons.IH(2) apply_get_expansion_Inr) }
  { case 3 then show ?case 
      by (auto simp: Let_def split: prod.splits sum.splits dest!: Cons.IH(3) apply_get_expansion_Inr) }
  { case 4 then show ?case 
      by (auto simp: Let_def split: prod.splits sum.splits dest!: Cons.IH(4) apply_get_expansion_Inr) }
qed

lemma main_success:
  assumes "main srt w = (None, s)"
  shows "\<exists>cfg exps data df. get_config (config_yaml w) = Inr cfg \<and> expansions_api w = Some exps
           \<and> collection_api w = Some data \<and> data_pd srt data = Inr df
           \<and> for_color (blueprint_api w) (expansions_dict exps 1) (price_cents_threshold cfg) df
                (colors cfg) initial = (None, s)"
  using assms by (auto simp: main_def Let_def split: sum.splits option.splits)

lemma main_None:
  assumes "fst (main srt w) = None"
  shows "\<exists>cfg exps data df. get_config (config_yaml w) = Inr cfg \<and> expansions_api w = Some exps
           \<and> collection_api w = Some data \<and> data_pd srt data = Inr df
           \<and> for_color (blueprint_api w) (expansions_dict exps 1) (price_cents_threshold cfg) df
                (colors cfg) initial = (None, snd (main srt w))"
proof -
  have "main srt w = (None, snd (main srt w))"
    using assms by (simp add: prod_eq_iff)
  then show ?thesis
    by (rule main_success)
qed

lemma get_config_colors:
  assumes "get_config d = Inr cfg" and "yaml_colors d = Some cs"
  shows "colors cfg = filter (\<lambda>color. code color \<in> set cs) list_Color"
  using assms by (auto simp: get_config_def split: option.splits)

text \<open>
  Claim C1, as amended. Nothing is cached: in a run that completes, \<open>get_expansion\<close>
  sends one request for every row of every printed table, in order. The requests for one
  blueprint are as many as the rows that have it.
\<close>

theorem one_lookup_per_row:
  assumes "fst (main srt w) = None"
  shows "requests (snd (main srt w))
           = concat (map (\<lambda>tb. map (\<lambda>x. blueprint_id (fst x)) (rows tb)) (console (snd (main srt w))))"
proof -
  obtain cfg :: Config and exps df where
    run: "for_color (blueprint_api w) (expansions_dict exps 1) (price_cents_threshold cfg) df
            (colors cfg) initial = (None, snd (main srt w))"
    using main_None [OF assms] by blast
  let ?s = "snd (main srt w)"
  let ?q = "\<lambda>c. query_color c (price_cents_threshold cfg) df"
  have A: "map (\<lambda>tb. map fst (rows tb)) (console ?s) = map ?q (colors cfg)"
    using for_color_success(1) [OF run, THEN arg_cong, of "map (\<lambda>v. fst (snd v))"]
    by (simp add: initial_def comp_def)
  have "map (map blueprint_id) (map (\<lambda>tb. map fst (rows tb)) (console ?s))
          = map (map blueprint_id) (map ?q (colors cfg))"
    by (simp only: A)
  then have "map (\<lambda>tb. map (\<lambda>x. blueprint_id (fst x)) (rows tb)) (console ?s)
               = map (\<lambda>c. map blueprint_id (?q c)) (colors cfg)"
    by (simp add: comp_def)
  then show ?thesis
    using for_color_success(2) [OF run] by (simp add: initial_def)
qed

theorem one_lookup_per_row_witness:
  "fst (main stable_descending (service (Color_all False) 300 inventory)) = None
   \<and> requests (snd (main stable_descending (service (Color_all False) 300 inventory)))
       = concat (map (\<lambda>tb. map (\<lambda>x. blueprint_id (fst x)) (rows tb))
           (console (snd (main stable_descending (service (Color_all False) 300 inventory)))))"
proof -
  have "fst (main stable_descending (service (Color_all False) 300 inventory)) = None"
    by code_simp
  then show ?thesis
    using one_lookup_per_row [of stable_descending "service (Color_all False) 300 inventory"]
    by blast
qed

text \<open>
  Claim C1 as stated fails: two rows of the inventory share the blueprint 42, and the
  run sends two requests for it.
\<close>

theorem lookups_repeat_counterexample:
  "fst (main stable_descending (service (Color_all False) 300 inventory)) = None
   \<and> \<not> count_list (requests (snd (main stable_descending
           (service (Color_all False) 300 inventory)))) 42 \<le> 1"
  by code_simp

text \<open>
  Claim C2, as amended. The tables of a run that completes are in the order of the
  enumeration \<^verbatim>\<open>Color\<close>, restricted to the codes of the configuration; the order
  of the codes in the configuration plays no part.
\<close>

theorem reports_in_enumeration_order:
  assumes "fst (main srt w) = None" and "yaml_colors (config_yaml w) = Some cs"
  shows "map title (console (snd (main srt w))) = filter (\<lambda>color. code color \<in> set cs) list_Color"
proof -
  obtain cfg exps df where
    cfg: "get_config (config_yaml w) = Inr cfg" and
    run: "for_color (blueprint_api w) (expansions_dict exps 1) (price_cents_threshold cfg) df
            (colors cfg) initial = (None, snd (main srt w))"
    using main_None [OF assms(1)] by blast
  have "map title (console (snd (main srt w))) = colors cfg"
    using for_color_success(1) [OF run, THEN arg_cong, of "map fst"]
    by (simp add: initial_def comp_def)
  then show ?thesis
    by (simp add: get_config_colors [OF cfg assms(2)])
qed

theorem reports_in_enumeration_order_witness:
  "fst (main stable_descending (service [''W'', ''M''] 300 inventory)) = None
   \<and> yaml_colors (config_yaml (service [''W'', ''M''] 300 inventory)) = Some [''W'', ''M'']
   \<and> map title (console (snd (main stable_descending (service [''W'', ''M''] 300 inventory))))
       = filter (\<lambda>color. code color \<in> set [''W'', ''M'']) list_Color"
proof -
  have 1: "fst (main stable_descending (service [''W'', ''M''] 300 inventory)) = None"
    by code_simp
  have 2: "yaml_colors (config_yaml (service [''W'', ''M''] 300 inventory)) = Some [''W'', ''M'']"
    by (simp add: service_def)
  show ?thesis
    using reports_in_enumeration_order [OF 1 2] 1 2 by blast
qed

text \<open>
  Claim C2 as stated fails: with the codes W, M configured in this order, the first
  table is that of M.
\<close>

theorem reports_not_in_config_order_counterexample:
  "yaml_colors (config_yaml (service [''W'', ''M''] 300 inventory)) = Some [''W'', ''M'']
   \<and> fst (main stable_descending (service [''W'', ''M''] 300 inventory)) = None
   \<and> map (\<lambda>tb. code (title tb))
        (console (snd (main stable_descending (service [''W'', ''M''] 300 inventory))))
       = [''M'', ''W'']"
  by code_simp

lemma console_view:
  assumes "for_color api exps t df cs initial = (None, s)"
  shows "map (\<lambda>tb. (title tb, map fst (rows tb), caption_items tb, caption_cents tb)) (console s)
           = map (\<lambda>c. (c, query_color c t df, length (query_color c t df),
                          sum_price_cents (query_color c t df))) cs"
  using for_color_success(1) [OF assms] by (simp add: initial_def)

lemma table_of_console:
  assumes "for_color api exps t df cs initial = (None, s)" and "tb \<in> set (console s)"
  shows "title tb \<in> set cs \<and> map fst (rows tb) = query_color (title tb) t df
           \<and> caption_items tb = length (query_color (title tb) t df)
           \<and> caption_cents tb = sum_price_cents (query_color (title tb) t df)"
proof -
  let ?v = "\<lambda>tb. (title tb, map fst (rows tb), caption_items tb, caption_cents tb)"
  have "?v tb \<in> set (map ?v (console s))"
    using assms(2) by (simp only: set_map) (rule imageI)
  then have "?v tb \<in> set (map (\<lambda>c. (c, query_color c t df, length (query_color c t df),
                          sum_price_cents (query_color c t df))) cs)"
    by (simp only: console_view [OF assms(1)])
  then show ?thesis
    by auto
qed

lemma titles_of_console:
  assumes "for_color api exps t df cs initial = (None, s)"
  shows "map title (console s) = cs"
  using console_view [OF assms, THEN arg_cong, of "map fst"] by (simp add: comp_def)

lemma priced_query_color:
  assumes "r \<in> set (query_color c t df)"
  shows "r \<in> set df \<and> cell_ge (price_cents r) (Some t)"
  using assms by (auto simp: query_color_def Let_def split: if_splits)

lemma cell_ge_Some: "cell_ge p (Some t) \<longleftrightarrow> (\<exists>a. p = Some a \<and> t \<le> a)"
  by (simp add: cell_ge_def split: option.split)

lemma sum_price_cents_priced:
  assumes "\<forall>r \<in> set q. price_cents r \<noteq> None"
  shows "sum_price_cents q = (\<Sum>r\<leftarrow>q. the (price_cents r))"
  using assms unfolding sum_price_cents_def by (induction q) auto




lemma set_Color_all_True:
  "set (Color_all True) = {''W'', ''U'', ''B'', ''R'', ''G'', ''C'', ''L''}"
  by (auto simp: Color_all_def list_Color_def)

lemma query_MULTICOLOR:
  "query_color MULTICOLOR t df
     = filter (\<lambda>r. mtg_card_colors r \<notin> Some ` {''W'', ''U'', ''B'', ''R'', ''G'', ''C'', ''L''}
                 \<and> cell_ge (price_cents r) (Some t)) df"
proof -
  have "(case c of None \<Rightarrow> True | Some x \<Rightarrow> x \<notin> set (Color_all True))
          \<longleftrightarrow> c \<notin> Some ` {''W'', ''U'', ''B'', ''R'', ''G'', ''C'', ''L''}" for c
    unfolding set_Color_all_True by (cases c) auto
  then show ?thesis
    by (simp add: query_color_def Let_def)
qed

text \<open>
  Claim C4. Whatever colours are configured, the table of \<open>MULTICOLOR\<close> (there is
  one when the colour is configured) holds exactly the rows of the frame whose colour is
  none of the seven codes W, U, B, R, G, C, L and whose price reaches the threshold, in
  the order of the frame.
\<close>

theorem multicolor_bucket:
  assumes "fst (main srt w) = None"
    and "get_config (config_yaml w) = Inr cfg"
    and "collection_api w = Some data"
    and "data_pd srt data = Inr df"
  shows "(MULTICOLOR \<in> set (colors cfg)
            \<longrightarrow> (\<exists>tb \<in> set (console (snd (main srt w))). title tb = MULTICOLOR))
       \<and> (\<forall>tb \<in> set (console (snd (main srt w))). title tb = MULTICOLOR \<longrightarrow>
            map fst (rows tb)
              = filter (\<lambda>r. mtg_card_colors r \<notin> Some ` {''W'', ''U'', ''B'', ''R'', ''G'', ''C'', ''L''}
                           \<and> cell_ge (price_cents r) (Some (price_cents_threshold cfg))) df)"
proof -
  obtain exps where
    run: "for_color (blueprint_api w) (expansions_dict exps 1) (price_cents_threshold cfg) df
            (colors cfg) initial = (None, snd (main srt w))"
    using main_None [OF assms(1)] assms(2-4) by auto
  have present: "\<exists>tb \<in> set (console (snd (main srt w))). title tb = MULTICOLOR"
    if "MULTICOLOR \<in> set (colors cfg)"
  proof -
    have "MULTICOLOR \<in> title ` set (console (snd (main srt w)))"
      using that titles_of_console [OF run] by (metis set_map)
    then obtain x where "MULTICOLOR = title x" and "x \<in> set (console (snd (main srt w)))"
      by (rule imageE)
    then show ?thesis
      by (intro bexI [of _ x]) simp_all
  qed
  have "map fst (rows tb) = query_color MULTICOLOR (price_cents_threshold cfg) df"
    if "tb \<in> set (console (snd (main srt w)))" "title tb = MULTICOLOR" for tb
    using table_of_console [OF run that(1)] that(2) by simp
  then show ?thesis
    unfolding query_MULTICOLOR using present by blast
qed


theorem multicolor_bucket_witness:
  "\<exists>cfg df. get_config (config_yaml (service [''M''] 300 inventory)) = Inr cfg
     \<and> data_pd stable_descending inventory = Inr df
     \<and> fst (main stable_descending (service [''M''] 300 inventory)) = None
     \<and> colors cfg = [MULTICOLOR]
     \<and> (\<exists>tb \<in> set (console (snd (main stable_descending (service [''M''] 300 inventory)))).
           title tb = MULTICOLOR)
     \<and> list_all (\<lambda>tb. title tb = MULTICOLOR \<longrightarrow>
            map fst (rows tb)
              = filter (\<lambda>r. mtg_card_colors r \<notin> Some ` {''W'', ''U'', ''B'', ''R'', ''G'', ''C'', ''L''}
                           \<and> cell_ge (price_cents r) (Some (price_cents_threshold cfg))) df)
          (console (snd (main stable_descending (service [''M''] 300 inventory))))"
proof -
  have 1: "fst (main stable_descending (service [''M''] 300 inventory)) = None"
    by code_simp
  obtain cfg where 2: "get_config (config_yaml (service [''M''] 300 inventory)) = Inr cfg"
    and 3: "colors cfg = [MULTICOLOR]"
    by (simp add: get_config_def service_def list_Color_def)
  have 4: "collection_api (service [''M''] 300 inventory) = Some inventory"
    by (simp add: service_def)
  obtain df where 5: "data_pd stable_descending inventory = Inr df"
    by (simp add: data_pd_def has_column_def inventory_def item_def del: not_None_eq)
  show ?thesis
    using multicolor_bucket [OF 1 2 4 5] 1 2 3 5
    by (intro exI [of _ cfg] exI [of _ df]) (simp add: list_all_iff)
qed

lemma bucket_of:
  assumes "r \<in> set df" and "cell_ge (price_cents r) (Some t)"
  shows "\<exists>c. filter (\<lambda>c. r \<in> set (query_color c t df)) list_Color = [c]
           \<and> (if mtg_card_colors r \<in> Some ` set (Color_all True)
                then c \<noteq> MULTICOLOR \<and> mtg_card_colors r = Some (code c)
                else c = MULTICOLOR)"
  using assms
  by (cases "mtg_card_colors r")
     (auto simp: query_color_def list_Color_def Color_all_def Let_def)

lemma all_colors_enabled:
  assumes "get_config d = Inr cfg" and "yaml_colors d = Some cs"
    and "set (Color_all False) \<subseteq> set cs"
  shows "colors cfg = list_Color"
proof -
  have "code c \<in> set cs" for c
    using assms(3) by (cases c) (auto simp: Color_all_def list_Color_def)
  then show ?thesis
    by (simp add: get_config_colors [OF assms(1,2)])
qed

text \<open>
  Claim C5. When the configuration lists all eight codes, a row of the frame whose price
  reaches the threshold is in exactly one table: that of the colour whose code is the
  row's colour if this is one of the seven codes, and that of \<open>MULTICOLOR\<close> otherwise.
\<close>

theorem exactly_one_bucket:
  assumes "fst (main srt w) = None"
    and "get_config (config_yaml w) = Inr cfg"
    and "yaml_colors (config_yaml w) = Some cs"
    and "set (Color_all False) \<subseteq> set cs"
    and "collection_api w = Some data"
    and "data_pd srt data = Inr df"
    and "r \<in> set df"
    and "cell_ge (price_cents r) (Some (price_cents_threshold cfg))"
  shows "\<exists>c. map title (filter (\<lambda>tb. r \<in> fst ` set (rows tb)) (console (snd (main srt w)))) = [c]
           \<and> (if mtg_card_colors r \<in> Some ` set (Color_all True)
                then c \<noteq> MULTICOLOR \<and> mtg_card_colors r = Some (code c)
                else c = MULTICOLOR)"
proof -
  obtain exps where
    run: "for_color (blueprint_api w) (expansions_dict exps 1) (price_cents_threshold cfg) df
            (colors cfg) initial = (None, snd (main srt w))"
    using main_None [OF assms(1)] assms(2,5,6) by auto
  let ?t = "price_cents_threshold cfg"
  let ?v = "\<lambda>tb. (title tb, map fst (rows tb), caption_items tb, caption_cents tb)"
  let ?P = "\<lambda>x :: Color \<times> row list \<times> nat \<times> int. r \<in> set (fst (snd x))"
  have "map title (filter (\<lambda>tb. r \<in> fst ` set (rows tb)) (console (snd (main srt w))))
          = map fst (filter ?P (map ?v (console (snd (main srt w)))))"
    by (simp add: filter_map comp_def)
  also have "\<dots> = map fst (filter ?P (map (\<lambda>c. (c, query_color c ?t df, length (query_color c ?t df),
                          sum_price_cents (query_color c ?t df))) list_Color))"
    by (simp only: console_view [OF run] all_colors_enabled [OF assms(2,3,4)])
  also have "\<dots> = filter (\<lambda>c. r \<in> set (query_color c ?t df)) list_Color"
    by (simp add: filter_map comp_def)
  finally show ?thesis
    using bucket_of [OF assms(7,8)] by simp
qed

theorem exactly_one_bucket_witness:
  "\<exists>cfg df r. get_config (config_yaml (service (Color_all False) 300 inventory)) = Inr cfg
     \<and> data_pd stable_descending inventory = Inr df
     \<and> fst (main stable_descending (service (Color_all False) 300 inventory)) = None
     \<and> r \<in> set df \<and> mtg_card_colors r = Some ''WU'' \<and> price_cents r = Some 1000
     \<and> map title (filter (\<lambda>tb. r \<in> fst ` set (rows tb))
          (console (snd (main stable_descending (service (Color_all False) 300 inventory)))))
        = [MULTICOLOR]"
proof -
  let ?w = "service (Color_all False) 300 inventory"
  let ?r = "assign_columns (1, item 43 (Some 1000) (Some True) (Some ''wu''))"
  have 1: "fst (main stable_descending ?w) = None"
    by code_simp
  obtain cfg where 2: "get_config (config_yaml ?w) = Inr cfg"
    and t: "price_cents_threshold cfg = 300"
    by (simp add: get_config_def service_def list_Color_def)
  have 3: "yaml_colors (config_yaml ?w) = Some (Color_all False)"
    by (simp add: service_def)
  have 4: "collection_api ?w = Some inventory"
    by (simp add: service_def)
  obtain df where 5: "data_pd stable_descending inventory = Inr df" and 6: "?r \<in> set df"
    by (simp add: data_pd_def has_column_def inventory_def item_def json_normalize_def
        sort_values_def dropna_def stable_descending_def del: not_None_eq)
  have 7: "mtg_card_colors ?r = Some ''WU''" "price_cents ?r = Some 1000"
    by (simp_all add: item_def str_upper_def upper_char_def)
  have 8: "cell_ge (price_cents ?r) (Some (price_cents_threshold cfg))"
    by (simp add: t cell_ge_def item_def)
  have 9: "mtg_card_colors ?r \<notin> Some ` set (Color_all True)"
    by (simp add: Color_all_def list_Color_def item_def str_upper_def upper_char_def)
  show ?thesis
    using exactly_one_bucket [OF 1 2 3 subset_refl 4 5 6 8] 1 2 5 6 7 9
    by (intro exI [of _ cfg] exI [of _ df] exI [of _ ?r]) auto
qed

section \<open>Order, errors and dropped records\<close>

lemma subseq_query_color: "subseq (query_color c t df) df"
  by (simp add: query_color_def Let_def)

lemma sorted_wrt_subseq':
  assumes "sorted_wrt R ys" and "subseq xs ys"
  shows "sorted_wrt R xs"
  using assms(2,1)
  by (induction rule: list_emb.induct) (auto dest: list_emb_set)

lemma nan_last_cell_ge:
  assumes "nan_last p q" and "p \<noteq> None" and "q \<noteq> None"
  shows "cell_ge p q"
  using assms by (auto simp: nan_last_def cell_ge_def)

lemma sorted_query_color:
  assumes "sorted_wrt (\<lambda>a b. nan_last (price_cents a) (price_cents b)) df"
  shows "sorted_wrt (\<lambda>a b. cell_ge (price_cents a) (price_cents b)) (query_color c t df)"
proof -
  have "sorted_wrt (\<lambda>a b. nan_last (price_cents a) (price_cents b)) (query_color c t df)"
    using assms subseq_query_color by (rule sorted_wrt_subseq')
  then show ?thesis
  proof (rule sorted_wrt_mono_rel [rotated])
    fix a b
    assume "a \<in> set (query_color c t df)" "b \<in> set (query_color c t df)"
      and "nan_last (price_cents a) (price_cents b)"
    then show "cell_ge (price_cents a) (price_cents b)"
      using priced_query_color [of a c t df] priced_query_color [of b c t df]
      by (intro nan_last_cell_ge) (auto simp: cell_ge_Some)
  qed
qed

text \<open>
  Claim C3, as amended. The frame lists the rows that have a price in descending order
  of price, and after them the rows that have none. Every bucket is a subsequence of the
  frame, so it inherits this order, and since its rows all have a price it is sorted in
  descending order. Rows with equal prices are in the order of the export when the
  sorting algorithm is stable.
\<close>

theorem frame_sorted_by_price:
  assumes "sorts_descending srt" and "data_pd srt data = Inr df"
  shows "sorted_wrt (\<lambda>a b. nan_last (price_cents a) (price_cents b)) df
       \<and> (\<forall>color t. subseq (query_color color t df) df
             \<and> sorted_wrt (\<lambda>a b. cell_ge (price_cents a) (price_cents b)) (query_color color t df))
       \<and> (stable srt \<longrightarrow> (\<forall>k. sorted (map index (filter (\<lambda>r. price_cents r = Some k) df))))"
  using sorted_data_pd [OF assms] sorted_query_color [OF sorted_data_pd [OF assms]]
    subseq_query_color stable_data_pd [OF assms(1) _ assms(2)]
  by blast

theorem frame_sorted_by_price_witness:
  "\<exists>df. data_pd stable_descending inventory = Inr df
     \<and> sorted_wrt (\<lambda>a b. nan_last (price_cents a) (price_cents b)) df
     \<and> (\<forall>color t. subseq (query_color color t df) df
           \<and> sorted_wrt (\<lambda>a b. cell_ge (price_cents a) (price_cents b)) (query_color color t df))
     \<and> (\<forall>k. sorted (map index (filter (\<lambda>r. price_cents r = Some k) df)))"
proof -
  obtain df where df: "data_pd stable_descending inventory = Inr df"
    by (simp add: data_pd_def has_column_def inventory_def item_def del: not_None_eq)
  show ?thesis
    using frame_sorted_by_price [OF sorts_descending_stable_descending df]
      stable_stable_descending df
    by (intro exI [of _ df]) blast
qed

text \<open>
  Claim C3 as stated fails: a record without a price stays in the frame, and no
  comparison with its empty cell holds.
\<close>

theorem frame_not_sorted_counterexample:
  "map_sum id (map price_cents) (data_pd stable_descending inventory)
     = Inr [Some 1000, Some 500, Some 500, Some 200, None]
   \<and> \<not> (case data_pd stable_descending inventory of
           Inl e \<Rightarrow> True
         | Inr df \<Rightarrow> sorted_wrt (\<lambda>a b. cell_ge (price_cents a) (price_cents b)) df)"
  by code_simp

lemma data_pd_succeeds:
  assumes "has_column price_cents data" and "has_column mtg_card_colors data"
    and "has_column mtg_foil data"
  shows "\<exists>df. data_pd srt data = Inr df"
  using assms by (simp add: data_pd_def)

lemma data_pd_error:
  assumes "data_pd srt data = Inl e"
  shows "e \<in> KeyError ` {''price_cents'', ''properties_hash.mtg_card_colors'', ''mtg_foil''}"
  using assms by (auto simp: data_pd_def split: if_splits)

lemma kept_data_pd:
  assumes "sorts_descending srt" and "data_pd srt data = Inr df"
    and "i < length data" and "mtg_card_colors (data ! i) \<noteq> None"
  shows "assign_columns (i, data ! i) \<in> set df"
proof -
  have "(i, data ! i) \<in> set (filter (\<lambda>x. mtg_card_colors (snd x) \<noteq> None) (enumerate 0 data))"
    using assms(3,4) by (simp add: in_enumerate del: not_None_eq)
  then have "assign_columns (i, data ! i) \<in># mset df"
    unfolding mset_data_pd [OF assms(1,2)] by (simp del: not_None_eq)
  then show ?thesis
    by simp
qed

lemma unpriced_in_no_bucket:
  assumes "price_cents r = None"
  shows "r \<notin> set (query_color color t df)"
  using assms priced_query_color [of r color t df] by (auto simp: cell_ge_Some)

lemma apply_get_expansion_total:
  assumes "\<forall>b. \<exists>e. api b = Some e \<and> exps e \<noteq> None"
  shows "\<exists>names. apply_get_expansion api exps q sent = (Inr names, sent @ map blueprint_id q)"
proof (induction q arbitrary: sent)
  case Nil
  then show ?case by simp
next
  case (Cons r rs)
  obtain e v where "api (blueprint_id r) = Some e" "exps e = Some v"
    using assms by (metis not_None_eq)
  moreover obtain names where
    "apply_get_expansion api exps rs (sent @ [blueprint_id r])
       = (Inr names, (sent @ [blueprint_id r]) @ map blueprint_id rs)"
    using Cons.IH by blast
  ultimately show ?case
    by (simp add: get_expansion_def)
qed

lemma for_color_total:
  assumes "\<forall>b. \<exists>e. api b = Some e \<and> exps e \<noteq> None"
  shows "\<exists>s'. for_color api exps t df cs s = (None, s')"
proof (induction cs arbitrary: s)
  case Nil
  then show ?case by simp
next
  case (Cons c cs)
  obtain names where
    "apply_get_expansion api exps (query_color c t df) (requests s)
       = (Inr names, requests s @ map blueprint_id (query_color c t df))"
    using apply_get_expansion_total [OF assms] by blast
  then show ?case
    using Cons.IH by (simp add: Let_def)
qed

lemma main_completes:
  assumes "get_config (config_yaml w) = Inr cfg" and "expansions_api w = Some exps"
    and "collection_api w = Some data" and "data_pd srt data = Inr df"
    and "\<forall>b. \<exists>e. blueprint_api w b = Some e \<and> expansions_dict exps 1 e \<noteq> None"
  shows "fst (main srt w) = None \<and> map title (console (snd (main srt w))) = colors cfg"
proof -
  obtain s' where run: "for_color (blueprint_api w) (expansions_dict exps 1)
      (price_cents_threshold cfg) df (colors cfg) initial = (None, s')"
    using for_color_total [OF assms(5)] by blast
  then have "main srt w = (None, s')"
    using assms(1-4) by (simp add: main_def)
  then show ?thesis
    using titles_of_console [OF run] by simp
qed




lemma index_data_pd:
  assumes "sorts_descending srt" and "data_pd srt data = Inr df"
  shows "mset (map index df)
           = mset (filter (\<lambda>i. mtg_card_colors (data ! i) \<noteq> None) [0..<length data])"
proof -
  let ?fr = "enumerate 0 data"
  have "filter (\<lambda>x. mtg_card_colors (snd x) \<noteq> None) ?fr
          = filter (\<lambda>x. mtg_card_colors (data ! fst x) \<noteq> None) ?fr"
    by (rule filter_cong) (simp_all add: in_enumerate del: not_None_eq)
  moreover have "map fst (filter (\<lambda>x. mtg_card_colors (data ! fst x) \<noteq> None) ?fr)
          = filter (\<lambda>i. mtg_card_colors (data ! i) \<noteq> None) (map fst ?fr)"
    by (simp only: filter_map comp_def)
  moreover have "map fst ?fr = [0..<length data]"
    by simp
  ultimately have *: "map fst (filter (\<lambda>x. mtg_card_colors (snd x) \<noteq> None) ?fr)
          = filter (\<lambda>i. mtg_card_colors (data ! i) \<noteq> None) [0..<length data]"
    by (simp only:)
  have "mset (map index df) = image_mset index (mset df)"
    by simp
  also have "\<dots> = image_mset fst (mset (filter (\<lambda>x. mtg_card_colors (snd x) \<noteq> None) ?fr))"
    unfolding mset_data_pd [OF assms]
    by (simp add: image_mset.compositionality comp_def del: not_None_eq)
  also have "\<dots> = mset (map fst (filter (\<lambda>x. mtg_card_colors (snd x) \<noteq> None) ?fr))"
    by simp
  finally show ?thesis
    by (simp only: *)
qed

lemma for_color_rows:
  assumes "for_color api exps t df cs s = (e, s')" and "tb \<in> set (console s')"
  shows "tb \<in> set (console s) \<or> (\<forall>x \<in> set (rows tb). fst x \<in> set df)"
  using assms
proof (induction cs arbitrary: s)
  case Nil
  then show ?case by simp
next
  case (Cons c cs)
  show ?case
  proof (cases "apply_get_expansion api exps (query_color c t df) (requests s)")
    case (Pair res sent)
    show ?thesis
    proof (cases res)
      case (Inl err)
      with Pair Cons.prems show ?thesis
        by (auto simp: Let_def)
    next
      case (Inr names)
      let ?s1 = "\<lparr>console = console s @
               [\<lparr>title = c, rows = zip (query_color c t df) names,
                 caption_items = length (query_color c t df),
                 caption_cents = sum_price_cents (query_color c t df)\<rparr>],
             requests = sent,
             total_items = total_items s + length (query_color c t df),
             total_value = float_add (total_value s)
                             (true_divide (sum_price_cents (query_color c t df)) 100)\<rparr>"
      have "for_color api exps t df cs ?s1 = (e, s')"
        using Cons.prems(1) Pair Inr by (simp add: Let_def)
      from Cons.IH [OF this Cons.prems(2)]
      have "tb \<in> set (console ?s1) \<or> (\<forall>x \<in> set (rows tb). fst x \<in> set df)" .
      moreover have "\<forall>x \<in> set (zip (query_color c t df) names). fst x \<in> set df"
        using priced_query_color [of _ c t df] by (auto dest: set_zip_leftD)
      ultimately show ?thesis
        by auto
    qed
  qed
qed

lemma main_console:
  assumes "main srt w = (e, s')"
  shows "s' = initial
       \<or> (\<exists>(cfg :: Config) exps data df. collection_api w = Some data \<and> data_pd srt data = Inr df
            \<and> for_color (blueprint_api w) (expansions_dict exps 1)
                 (price_cents_threshold cfg) df (colors cfg) initial = (e, s'))"
  using assms by (auto simp: main_def Let_def split: sum.splits option.splits)

lemma main_rows:
  assumes "collection_api w = Some data" and "data_pd srt data = Inr df"
    and "tb \<in> set (console (snd (main srt w)))" and "x \<in> set (rows tb)"
  shows "fst x \<in> set df"
proof -
  obtain e s' where run: "main srt w = (e, s')"
    by (cases "main srt w")
  from assms(3) have tb: "tb \<in> set (console s')"
    by (simp add: run)
  from main_console [OF run] show ?thesis
  proof
    assume "s' = initial"
    with tb show ?thesis
      by (simp add: initial_def)
  next
    assume "\<exists>(cfg :: Config) exps data df. collection_api w = Some data \<and> data_pd srt data = Inr df
            \<and> for_color (blueprint_api w) (expansions_dict exps 1)
                 (price_cents_threshold cfg) df (colors cfg) initial = (e, s')"
    then obtain cfg :: Config and exps where
      "for_color (blueprint_api w) (expansions_dict exps 1)
                 (price_cents_threshold cfg) df (colors cfg) initial = (e, s')"
      using assms(1,2) by auto
    from for_color_rows [OF this tb] assms(4) show ?thesis
      by (auto simp: initial_def)
  qed
qed







text \<open>
  The order of rows with equal prices is the algorithm's: on the inventory, whose records
  0 and 2 both cost 500, the stable algorithm and the reversing one give different frames.
\<close>

lemma ties_follow_the_algorithm:
  "map_sum id (map index) (data_pd stable_descending inventory) = Inr [1, 0, 2, 4, 3]"
  "map_sum id (map index) (data_pd reversing_descending inventory) = Inr [1, 2, 0, 4, 3]"
  by code_simp+

end
